theory Spec2Isabelle
  imports Complex_Main "HOL-Library.AList"
begin

section \<open>Data model\<close>

text \<open>
  The adapter \<^verbatim>\<open>ChromaVectorDatabase\<close> (chroma-vectordb.ts) marshals documents between
  the caller and a remote Chroma collection. JavaScript numbers (scores, distances) are
  idealised as \<^typ>\<open>real\<close>, so rounding, infinities and NaN are left out; integers
  (limits) are \<^typ>\<open>int\<close>; a string is a list of code units, each below 256.

  Metadata values are untyped at run time: a value is null, a boolean, a number or a
  string. A missing key reads as \<^verbatim>\<open>undefined\<close>, modelled as \<open>None\<close>.
\<close>

datatype jsval = JNull | JBool bool | JNum real | JStr string

fun truthy :: "jsval \<Rightarrow> bool" where
  "truthy JNull = False"
| "truthy (JBool b) = b"
| "truthy (JNum n) = (n \<noteq> 0)"
| "truthy (JStr s) = (s \<noteq> [])"

text \<open>\<^verbatim>\<open>x || d\<close> on a possibly missing metadata value.\<close>

definition or_default :: "jsval option \<Rightarrow> jsval \<Rightarrow> jsval" where
  "or_default x d = (case x of None \<Rightarrow> d | Some v \<Rightarrow> if truthy v then v else d)"

type_synonym metadata = "string \<rightharpoonup> jsval"

text \<open>
  Modelled from the spec: the interfaces of \<^verbatim>\<open>./types\<close> (VectorDocument, SearchOptions,
  VectorSearchResult, HybridSearchRequest, HybridSearchOptions, HybridSearchResult) are
  imported by the adapter but their declarations are not among the sources. The fields
  are the ones the adapter reads and writes, with the types of the spec's data model
  (Document, SearchRequest, FusionOptions, ScoredResult, FusedResult). The declared types
  are erased at run time, so the four structural fields of a document hold whatever the
  flat metadata of the backend holds; \<open>typed_document\<close> below states the declared types.
\<close>

record VectorDocument =
  doc_id :: string
  vector :: "real list"
  content :: string
  relativePath :: jsval
  startLine :: jsval
  endLine :: jsval
  fileExtension :: jsval
  metadata :: metadata

fun is_string :: "jsval \<Rightarrow> bool" where
  "is_string (JStr s) = True"
| "is_string v = False"

fun is_number :: "jsval \<Rightarrow> bool" where
  "is_number (JNum n) = True"
| "is_number v = False"

text \<open>
  Modelled from the spec: the declared types of the structural fields
  (\<^verbatim>\<open>relativePath: string, startLine: int, endLine: int, fileExtension: string\<close>).
\<close>

definition typed_document :: "VectorDocument \<Rightarrow> bool" where
  "typed_document d =
     (is_string (relativePath d) \<and> is_number (startLine d) \<and>
      is_number (endLine d) \<and> is_string (fileExtension d))"

text \<open>
  \<^verbatim>\<open>VectorSearchResult\<close> and \<^verbatim>\<open>HybridSearchResult\<close> are both \<^verbatim>\<open>{document, score}\<close>.
\<close>

record VectorSearchResult =
  document :: VectorDocument
  score :: real

type_synonym HybridSearchResult = VectorSearchResult

text \<open>
  A Chroma \<^verbatim>\<open>where\<close> clause. The only clause the adapter builds itself is
  \<^verbatim>\<open>{ field: { "$in": [values] } }\<close>; \<open>FieldEq\<close> stands for a caller-supplied
  \<^verbatim>\<open>{ field: value }\<close> filter of \<^verbatim>\<open>search\<close>.
\<close>

datatype whereclause = FieldIn string "string list" | FieldEq string jsval

record SearchOptions =
  topK :: "int option"
  filter_obj :: "whereclause option"
  filterExpr :: "string option"

text \<open>\<^verbatim>\<open>request.data\<close>: an array of numbers, a string, or anything else.\<close>

datatype payload = Vec "real list" | Text string | Other

record HybridSearchRequest =
  data :: payload
  anns_field :: string
  limit :: int

text \<open>
  \<^verbatim>\<open>options?: HybridSearchOptions\<close>; a missing \<^verbatim>\<open>options\<close> reads like one with both
  fields missing, since the adapter only reads \<^verbatim>\<open>options?.limit\<close> and
  \<^verbatim>\<open>options?.filterExpr\<close>.
\<close>

record HybridSearchOptions =
  h_limit :: "int option"
  h_filterExpr :: "string option"

section \<open>The backend\<close>

text \<open>
  The Chroma client is an external collaborator. A call may fail, and its answer may
  depend on a state \<open>'s\<close> of the outside world, which every call threads through.
  \<open>init_error\<close> is the outcome of \<^verbatim>\<open>ensureInitialized\<close>: the rejection of the
  initialization promise or the missing client, fixed once the adapter is constructed.
  A collection handle is its name. One hit of a response is the \<open>i\<close>-th entry of the
  parallel arrays \<^verbatim>\<open>ids[0], metadatas[0], documents[0], distances[0]\<close>; the last three
  may be missing or null.
\<close>

datatype error = ClientNotInitialized | BackendError string

datatype query_input = QueryEmbeddings "real list" | QueryTexts payload

record query_params =
  q_input :: query_input
  nResults :: int
  q_include :: "string list"
  q_where :: "whereclause option"

record hit =
  hit_id :: string
  hit_metadata :: "metadata option"
  hit_document :: "string option"
  hit_distance :: "real option"

record 's backend =
  init_error :: "error option"
  client_getCollection :: "string \<Rightarrow> 's \<Rightarrow> error option \<times> 's"
  collection_query :: "string \<Rightarrow> query_params \<Rightarrow> 's \<Rightarrow> (error + hit list) \<times> 's"

section \<open>Reading one hit\<close>

text \<open>\<^verbatim>\<open>Math.max(0, 1 - distance)\<close> with \<^verbatim>\<open>distance = distances?.[0]?.[i] || 0\<close>.\<close>

definition distance_or_zero :: "real option \<Rightarrow> real" where
  "distance_or_zero d = (case d of None \<Rightarrow> 0 | Some x \<Rightarrow> x)"

definition similarity :: "real \<Rightarrow> real" where
  "similarity distance = max 0 (1 - distance)"

definition reserved_keys :: "string list" where
  "reserved_keys = [''relativePath'', ''startLine'', ''endLine'', ''fileExtension'']"

text \<open>
  The body of the result loop. \<^verbatim>\<open>search\<close> and the text branch of \<^verbatim>\<open>hybridSearch\<close>
  repeat it word for word and differ only in the \<^verbatim>\<open>vector\<close> they store: the query
  vector, respectively \<^verbatim>\<open>[]\<close>.
\<close>

definition hit_result :: "real list \<Rightarrow> hit \<Rightarrow> VectorSearchResult" where
  "hit_result v h =
     (let m = (case hit_metadata h of None \<Rightarrow> Map.empty | Some m \<Rightarrow> m);
          doc = (case hit_document h of None \<Rightarrow> [] | Some s \<Rightarrow> s);
          distance = distance_or_zero (hit_distance h)
      in \<lparr>document =
            \<lparr>doc_id = hit_id h,
             vector = v,
             content = doc,
             relativePath = or_default (m ''relativePath'') (JStr []),
             startLine = or_default (m ''startLine'') (JNum 0),
             endLine = or_default (m ''endLine'') (JNum 0),
             fileExtension = or_default (m ''fileExtension'') (JStr []),
             metadata = m |` (- set reserved_keys)\<rparr>,
          score = similarity distance\<rparr>)"

section \<open>Writing a document\<close>

text \<open>
  \<^verbatim>\<open>insert\<close> flattens a document into one metadata object:
  \<^verbatim>\<open>{ relativePath, startLine, endLine, fileExtension, ...doc.metadata }\<close>. The spread
  comes last, so a key of \<^verbatim>\<open>doc.metadata\<close> overrides a structural field of the same
  name.
\<close>

definition insert_metadata :: "VectorDocument \<Rightarrow> metadata" where
  "insert_metadata doc =
     [''relativePath'' \<mapsto> relativePath doc,
      ''startLine'' \<mapsto> startLine doc,
      ''endLine'' \<mapsto> endLine doc,
      ''fileExtension'' \<mapsto> fileExtension doc] ++ metadata doc"

text \<open>
  What the collection holds for an inserted document and hands back as a hit, when
  the backend returns ids, texts and metadata as they were added.
\<close>

definition stored_hit :: "VectorDocument \<Rightarrow> real option \<Rightarrow> hit" where
  "stored_hit doc d =
     \<lparr>hit_id = doc_id doc, hit_metadata = Some (insert_metadata doc),
      hit_document = Some (content doc), hit_distance = d\<rparr>"

section \<open>Strings\<close>

text \<open>
  The string methods \<^verbatim>\<open>query\<close> uses. White space of \<^verbatim>\<open>trim\<close> among the code units
  below 256: tab, line feed, vertical tab, form feed, carriage return, space and the
  no-break space.
\<close>

definition is_ws :: "char \<Rightarrow> bool" where
  "is_ws c = (c \<in> set [CHR 0x09, CHR 0x0A, CHR 0x0B, CHR 0x0C, CHR 0x0D, CHR 0x20, CHR 0xA0])"

definition trim :: "string \<Rightarrow> string" where
  "trim s = rev (dropWhile is_ws (rev (dropWhile is_ws s)))"

definition starts_with :: "string \<Rightarrow> string \<Rightarrow> bool" where
  "starts_with s p = (take (length p) s = p)"

text \<open>\<^verbatim>\<open>s.includes(p)\<close>: \<open>p\<close> occurs in \<open>s\<close> at some position.\<close>

fun includes_str :: "string \<Rightarrow> string \<Rightarrow> bool" where
  "includes_str [] p = (p = [])"
| "includes_str (c # cs) p = (starts_with (c # cs) p \<or> includes_str cs p)"

text \<open>
  \<^verbatim>\<open>s.match(/\[([^\]]+)\]/)?.[1]\<close>: the group of the leftmost match. At an opening
  bracket the class \<^verbatim>\<open>[^\]]+\<close> takes every code unit up to the next closing bracket;
  the match needs that run to be non-empty and the closing bracket to exist, and giving
  back part of the run cannot help, since the unit after a shorter run is not a closing
  bracket.
\<close>

fun match_bracket :: "string \<Rightarrow> string option" where
  "match_bracket [] = None"
| "match_bracket (c # cs) =
     (if c = CHR ''[''
         \<and> takeWhile (\<lambda>d. d \<noteq> CHR '']'') cs \<noteq> []
         \<and> dropWhile (\<lambda>d. d \<noteq> CHR '']'') cs \<noteq> []
      then Some (takeWhile (\<lambda>d. d \<noteq> CHR '']'') cs)
      else match_bracket cs)"

text \<open>\<^verbatim>\<open>s.split(',')\<close>: at least one piece, the pieces between the separators.\<close>

fun split_on :: "char \<Rightarrow> string \<Rightarrow> string list" where
  "split_on sep [] = [[]]"
| "split_on sep (c # cs) =
     (if c = sep then [] # split_on sep cs
      else (case split_on sep cs of [] \<Rightarrow> [[c]] | w # ws \<Rightarrow> (c # w) # ws))"

text \<open>\<^verbatim>\<open>s.replace(/['"]/g, '')\<close>.\<close>

definition strip_quotes :: "string \<Rightarrow> string" where
  "strip_quotes s = filter (\<lambda>c. c \<noteq> CHR 0x27 \<and> c \<noteq> CHR 0x22) s"

section \<open>Filter translation\<close>

text \<open>
  The \<^verbatim>\<open>where\<close> clause of \<^verbatim>\<open>query\<close> (lines 388 to 404): the object \<^verbatim>\<open>where\<close> starts
  empty, gets the key \<^verbatim>\<open>fileExtension\<close> when the filter contains
  \<^verbatim>\<open>fileExtension in\<close> and a bracketed list, and is passed on only if it has a key.
\<close>

definition query_where :: "string \<Rightarrow> whereclause option" where
  "query_where filter_str =
     (if filter_str \<noteq> [] \<and> trim filter_str \<noteq> [] then
        (if includes_str filter_str ''fileExtension in'' then
           (case match_bracket filter_str of
              None \<Rightarrow> None
            | Some g \<Rightarrow>
                Some (FieldIn ''fileExtension''
                        (map (\<lambda>ext. strip_quotes (trim ext)) (split_on CHR '','' g))))
         else None)
      else None)"

text \<open>
  The text branch of \<^verbatim>\<open>hybridSearch\<close> (lines 299 to 303) does not read the expression:
  any non-empty \<^verbatim>\<open>filterExpr\<close> sets the same hardcoded clause.
\<close>

definition default_where :: whereclause where
  "default_where = FieldIn ''fileExtension'' [''.ts'', ''.js'', ''.py'']"

definition hybrid_text_where :: "HybridSearchOptions \<Rightarrow> whereclause option" where
  "hybrid_text_where options =
     (case h_filterExpr options of
        None \<Rightarrow> None
      | Some e \<Rightarrow> if e \<noteq> [] then Some default_where else None)"

section \<open>Single-modality searches\<close>

definition include_fields :: "string list" where
  "include_fields = [''documents'', ''metadatas'', ''distances'']"

text \<open>
  \<^verbatim>\<open>queryParams\<close> of \<^verbatim>\<open>search\<close>: \<^verbatim>\<open>topK = options?.topK || 10\<close>, and \<^verbatim>\<open>where\<close> is set
  from \<^verbatim>\<open>options?.filter\<close> only. \<^verbatim>\<open>options.filterExpr\<close> is not read.
\<close>

definition search_params :: "real list \<Rightarrow> SearchOptions \<Rightarrow> query_params" where
  "search_params queryVector options =
     \<lparr>q_input = QueryEmbeddings queryVector,
      nResults = (case topK options of None \<Rightarrow> 10 | Some k \<Rightarrow> if k = 0 then 10 else k),
      q_include = include_fields,
      q_where = filter_obj options\<rparr>"

definition search ::
  "'s backend \<Rightarrow> string \<Rightarrow> real list \<Rightarrow> SearchOptions \<Rightarrow> 's
     \<Rightarrow> (error + VectorSearchResult list) \<times> 's" where
  "search be collectionName queryVector options s =
     (case init_error be of
        Some e \<Rightarrow> (Inl e, s)
      | None \<Rightarrow>
         (case client_getCollection be collectionName s of
            (Some e, s1) \<Rightarrow> (Inl e, s1)
          | (None, s1) \<Rightarrow>
             (case collection_query be collectionName (search_params queryVector options) s1 of
                (Inl e, s2) \<Rightarrow> (Inl e, s2)
              | (Inr hits, s2) \<Rightarrow> (Inr (map (hit_result queryVector) hits), s2))))"

text \<open>The text branch of \<^verbatim>\<open>hybridSearch\<close> (lines 290 to 333).\<close>

definition text_params :: "HybridSearchRequest \<Rightarrow> HybridSearchOptions \<Rightarrow> query_params" where
  "text_params request options =
     \<lparr>q_input = QueryTexts (data request),
      nResults = limit request,
      q_include = include_fields,
      q_where = hybrid_text_where options\<rparr>"

definition text_search ::
  "'s backend \<Rightarrow> string \<Rightarrow> HybridSearchRequest \<Rightarrow> HybridSearchOptions \<Rightarrow> 's
     \<Rightarrow> (error + VectorSearchResult list) \<times> 's" where
  "text_search be collectionName request options s =
     (case client_getCollection be collectionName s of
        (Some e, s1) \<Rightarrow> (Inl e, s1)
      | (None, s1) \<Rightarrow>
         (case collection_query be collectionName (text_params request options) s1 of
            (Inl e, s2) \<Rightarrow> (Inl e, s2)
          | (Inr hits, s2) \<Rightarrow> (Inr (map (hit_result []) hits), s2)))"

section \<open>Fusion\<close>

text \<open>
  The dispatch at the head of the request loop (lines 283 to 334): the dense branch,
  else the text branch, else the request keeps \<^verbatim>\<open>searchResults = []\<close>.
\<close>

fun is_array :: "payload \<Rightarrow> bool" where
  "is_array (Vec v) = True"
| "is_array p = False"

fun is_text :: "payload \<Rightarrow> bool" where
  "is_text (Text t) = True"
| "is_text p = False"

definition dense_shape :: "HybridSearchRequest \<Rightarrow> bool" where
  "dense_shape request = (anns_field request = ''vector'' \<and> is_array (data request))"

definition lexical_shape :: "HybridSearchRequest \<Rightarrow> bool" where
  "lexical_shape request = (anns_field request = ''sparse_vector'' \<or> is_text (data request))"

definition request_results ::
  "'s backend \<Rightarrow> string \<Rightarrow> HybridSearchOptions \<Rightarrow> HybridSearchRequest \<Rightarrow> 's
     \<Rightarrow> (error + VectorSearchResult list) \<times> 's" where
  "request_results be collectionName options request s =
     (if dense_shape request then
        (case data request of
           Vec v \<Rightarrow>
             search be collectionName v
               \<lparr>topK = Some (limit request), filter_obj = None,
                filterExpr = h_filterExpr options\<rparr> s
         | _ \<Rightarrow> (Inr [], s))
      else if lexical_shape request then text_search be collectionName request options s
      else (Inr [], s))"

text \<open>
  The accumulator \<^verbatim>\<open>results: Map<string, HybridSearchResult>\<close> is an association list
  in insertion order: \<^verbatim>\<open>get\<close> is \<^const>\<open>map_of\<close>, and \<^verbatim>\<open>set\<close> as well as the
  assignment to \<^verbatim>\<open>existing.score\<close> is \<^const>\<open>AList.update\<close>, which keeps the place of a
  key that is present and appends a new key.
\<close>

definition merge_result ::
  "(string \<times> HybridSearchResult) list \<Rightarrow> VectorSearchResult
     \<Rightarrow> (string \<times> HybridSearchResult) list" where
  "merge_result results result =
     (case map_of results (doc_id (document result)) of
        Some existing \<Rightarrow>
          AList.update (doc_id (document result))
            (existing\<lparr>score := (score existing + score result) / 2\<rparr>) results
      | None \<Rightarrow>
          AList.update (doc_id (document result))
            \<lparr>document = document result, score = score result\<rparr> results)"

fun process_requests ::
  "'s backend \<Rightarrow> string \<Rightarrow> HybridSearchOptions \<Rightarrow> HybridSearchRequest list
     \<Rightarrow> (string \<times> HybridSearchResult) list \<Rightarrow> 's
     \<Rightarrow> (error + (string \<times> HybridSearchResult) list) \<times> 's" where
  "process_requests be collectionName options [] results s = (Inr results, s)"
| "process_requests be collectionName options (request # rest) results s =
     (case request_results be collectionName options request s of
        (Inl e, s1) \<Rightarrow> (Inl e, s1)
      | (Inr searchResults, s1) \<Rightarrow>
          process_requests be collectionName options rest
            (foldl merge_result results searchResults) s1)"

text \<open>
  \<^verbatim>\<open>Array.prototype.sort\<close> with a comparator is a stable sort: \<open>a\<close> stays before \<open>b\<close>
  unless \<open>compare a b > 0\<close>. On a consistent comparator every stable sort returns the
  same list; insertion from the right is one.
\<close>

fun insort_by :: "('a \<Rightarrow> 'a \<Rightarrow> real) \<Rightarrow> 'a \<Rightarrow> 'a list \<Rightarrow> 'a list" where
  "insort_by compare x [] = [x]"
| "insort_by compare x (y # ys) =
     (if compare x y \<le> 0 then x # y # ys else y # insort_by compare x ys)"

definition sort_by :: "('a \<Rightarrow> 'a \<Rightarrow> real) \<Rightarrow> 'a list \<Rightarrow> 'a list" where
  "sort_by compare xs = foldr (insort_by compare) xs []"

text \<open>\<^verbatim>\<open>(a, b) => b.score - a.score\<close>\<close>

definition by_score_desc :: "HybridSearchResult \<Rightarrow> HybridSearchResult \<Rightarrow> real" where
  "by_score_desc a b = score b - score a"

text \<open>\<^verbatim>\<open>xs.slice(0, n)\<close>; a negative \<open>n\<close> counts from the end.\<close>

definition slice0 :: "'a list \<Rightarrow> int \<Rightarrow> 'a list" where
  "slice0 xs n = (if 0 \<le> n then take (nat n) xs else take (length xs - nat (- n)) xs)"

text \<open>\<^verbatim>\<open>options?.limit || 10\<close>\<close>

definition effective_limit :: "HybridSearchOptions \<Rightarrow> int" where
  "effective_limit options =
     (case h_limit options of None \<Rightarrow> 10 | Some l \<Rightarrow> if l = 0 then 10 else l)"

definition hybridSearch ::
  "'s backend \<Rightarrow> string \<Rightarrow> HybridSearchRequest list \<Rightarrow> HybridSearchOptions \<Rightarrow> 's
     \<Rightarrow> (error + HybridSearchResult list) \<times> 's" where
  "hybridSearch be collectionName searchRequests options s =
     (case init_error be of
        Some e \<Rightarrow> (Inl e, s)
      | None \<Rightarrow>
         (case process_requests be collectionName options searchRequests [] s of
            (Inl e, s1) \<Rightarrow> (Inl e, s1)
          | (Inr results, s1) \<Rightarrow>
              (Inr (slice0 (sort_by by_score_desc (map snd results)) (effective_limit options)),
               s1)))"

section \<open>Notions for stating the properties\<close>

definition result_id :: "VectorSearchResult \<Rightarrow> string" where
  "result_id r = doc_id (document r)"

text \<open>
  The stream of per-modality results of one fusion call: every request run in input
  order on the threaded backend state, the result lists concatenated. It fails with the
  first error, like the loop of \<^const>\<open>process_requests\<close>.
\<close>

fun modality_results ::
  "'s backend \<Rightarrow> string \<Rightarrow> HybridSearchOptions \<Rightarrow> HybridSearchRequest list \<Rightarrow> 's
     \<Rightarrow> (error + VectorSearchResult list) \<times> 's" where
  "modality_results be collectionName options [] s = (Inr [], s)"
| "modality_results be collectionName options (request # rest) s =
     (case request_results be collectionName options request s of
        (Inl e, s1) \<Rightarrow> (Inl e, s1)
      | (Inr searchResults, s1) \<Rightarrow>
          (case modality_results be collectionName options rest s1 of
             (Inl e, s2) \<Rightarrow> (Inl e, s2)
           | (Inr later, s2) \<Rightarrow> (Inr (searchResults @ later), s2)))"

text \<open>The position at which a value is first met in a list (its length if never).\<close>

fun first_index :: "'a list \<Rightarrow> 'a \<Rightarrow> nat" where
  "first_index [] a = 0"
| "first_index (x # xs) a = (if x = a then 0 else Suc (first_index xs a))"

text \<open>Higher score first; among equal scores, smaller rank \<open>g\<close> first.\<close>

definition ranked ::
  "(HybridSearchResult \<Rightarrow> nat) \<Rightarrow> HybridSearchResult \<Rightarrow> HybridSearchResult \<Rightarrow> bool" where
  "ranked g a b = (score b < score a \<or> (score a = score b \<and> g a < g b))"

text \<open>Every entry of the accumulator is stored under the id of its document.\<close>

definition keyed :: "(string \<times> HybridSearchResult) list \<Rightarrow> bool" where
  "keyed acc = list_all (\<lambda>(k, v). result_id v = k) acc"

text \<open>The ids and scores of an outcome, in order; \<open>None\<close> for a failed call.\<close>

definition ids_scores ::
  "(error + VectorSearchResult list) \<times> 's \<Rightarrow> (string \<times> real) list option" where
  "ids_scores outcome =
     (case fst outcome of
        Inl e \<Rightarrow> None
      | Inr rs \<Rightarrow> Some (map (\<lambda>r. (result_id r, score r)) rs))"

subsection \<open>The scenario of the specification\<close>

text \<open>
  A backend without state that answers the dense query with \<open>x\<close> at distance 0.1 and
  \<open>y\<close> at 0.3, and the text query with \<open>x\<close> at 0.5 and \<open>z\<close> at 0.2: the per-modality
  scores are \<open>x: 0.9, y: 0.7\<close> and \<open>x: 0.5, z: 0.8\<close>.
\<close>

definition scenario_hit :: "string \<Rightarrow> real \<Rightarrow> hit" where
  "scenario_hit i d =
     \<lparr>hit_id = i, hit_metadata = None, hit_document = None, hit_distance = Some d\<rparr>"

definition scenario_backend :: "unit backend" where
  "scenario_backend =
     \<lparr>init_error = None,
      client_getCollection = (\<lambda>name s. (None, s)),
      collection_query = (\<lambda>name q s.
        (case q_input q of
           QueryEmbeddings v \<Rightarrow> Inr [scenario_hit ''x'' (1 / 10), scenario_hit ''y'' (3 / 10)]
         | QueryTexts t \<Rightarrow> Inr [scenario_hit ''x'' (5 / 10), scenario_hit ''z'' (2 / 10)],
         s))\<rparr>"

definition dense_request :: HybridSearchRequest where
  "dense_request = \<lparr>data = Vec [1, 0], anns_field = ''vector'', limit = 10\<rparr>"

definition text_request :: HybridSearchRequest where
  "text_request = \<lparr>data = Text ''merge'', anns_field = ''sparse_vector'', limit = 10\<rparr>"

definition scenario_requests :: "HybridSearchRequest list" where
  "scenario_requests = [dense_request, text_request]"

definition scenario_options :: HybridSearchOptions where
  "scenario_options = \<lparr>h_limit = Some 3, h_filterExpr = None\<rparr>"

definition scenario_stream_results :: "VectorSearchResult list" where
  "scenario_stream_results =
     map (hit_result [1, 0]) [scenario_hit ''x'' (1 / 10), scenario_hit ''y'' (3 / 10)]
     @ map (hit_result []) [scenario_hit ''x'' (5 / 10), scenario_hit ''z'' (2 / 10)]"

definition scenario_fused :: "HybridSearchResult list" where
  "scenario_fused =
     [hit_result [] (scenario_hit ''z'' (2 / 10)),
      (hit_result [1, 0] (scenario_hit ''x'' (1 / 10)))\<lparr>score := 7 / 10\<rparr>,
      hit_result [1, 0] (scenario_hit ''y'' (3 / 10))]"

subsection \<open>Further concrete inputs\<close>

text \<open>A request of neither shape: the dense field name with a payload that is no array.\<close>

definition unmatched_request :: HybridSearchRequest where
  "unmatched_request = \<lparr>data = Other, anns_field = ''vector'', limit = 5\<rparr>"

text \<open>Where the vector of a fused document can come from.\<close>

definition vector_origin :: "HybridSearchRequest list \<Rightarrow> VectorDocument \<Rightarrow> bool" where
  "vector_origin reqs d =
     (vector d = [] \<or> (\<exists>req\<in>set reqs. dense_shape req \<and> data req = Vec (vector d)))"

text \<open>
  The document of the usage notes, and the same document with a residual metadata key
  that has the name of a structural field.
\<close>

definition readme_doc :: VectorDocument where
  "readme_doc =
     \<lparr>doc_id = ''doc1'', vector = [1 / 10, 2 / 10, 3 / 10],
      content = ''function example() { return 1; }'',
      relativePath = JStr ''src/example.ts'', startLine = JNum 1, endLine = JNum 3,
      fileExtension = JStr ''.ts'', metadata = [''author'' \<mapsto> JStr ''developer'']\<rparr>"

definition clash_doc :: VectorDocument where
  "clash_doc = readme_doc\<lparr>metadata := [''relativePath'' \<mapsto> JStr ''lib/other.ts'']\<rparr>"

text \<open>The scenario's backend with the text query failing.\<close>

definition text_down_backend :: "unit backend" where
  "text_down_backend =
     \<lparr>init_error = None,
      client_getCollection = (\<lambda>name s. (None, s)),
      collection_query = (\<lambda>name q s.
        (case q_input q of
           QueryEmbeddings v \<Rightarrow> Inr [scenario_hit ''x'' (1 / 10), scenario_hit ''y'' (3 / 10)]
         | QueryTexts t \<Rightarrow> Inl (BackendError ''unavailable''),
         s))\<rparr>"

subsection \<open>Filter expressions\<close>

text \<open>
  The grammar \<^verbatim>\<open><field> in [<quoted-value>, ...]\<close> as text: the values in double quotes,
  separated by a comma and a space. A plain value has no comma, closing bracket or quote
  in it.
\<close>

definition quoted :: "string \<Rightarrow> string" where
  "quoted v = CHR 0x22 # v @ [CHR 0x22]"

fun join_comma :: "string list \<Rightarrow> string" where
  "join_comma [] = []"
| "join_comma [x] = x"
| "join_comma (x # y # ys) = x @ '', '' @ join_comma (y # ys)"

definition in_expression :: "string \<Rightarrow> string list \<Rightarrow> string" where
  "in_expression field vs = field @ '' in ['' @ join_comma (map quoted vs) @ '']''"

definition plain_value :: "string \<Rightarrow> bool" where
  "plain_value v = list_all (\<lambda>c. c \<notin> set [CHR '','', CHR '']'', CHR 0x22, CHR 0x27]) v"

text \<open>
  A backend that answers every query with no hits and whose state is the list of the
  queries it has received, and the options of the usage notes' filtered call.
\<close>

definition recording_backend :: "query_params list backend" where
  "recording_backend =
     \<lparr>init_error = None,
      client_getCollection = (\<lambda>name log. (None, log)),
      collection_query = (\<lambda>name q log. (Inr [], log @ [q]))\<rparr>"

definition filtered_options :: HybridSearchOptions where
  "filtered_options =
     \<lparr>h_limit = Some 5, h_filterExpr = Some (in_expression ''fileExtension'' [''.ts''])\<rparr>"

section \<open>The accumulator\<close>

lemma process_requests_modality_results:
  "process_requests be c opts reqs acc s =
     (case modality_results be c opts reqs s of
        (Inl e, s1) \<Rightarrow> (Inl e, s1)
      | (Inr rs, s1) \<Rightarrow> (Inr (foldl merge_result acc rs), s1))"
  by (induction reqs arbitrary: acc s) (auto split: prod.splits sum.splits)

lemma hybridSearch_modality_results:
  "hybridSearch be c reqs opts s =
     (case init_error be of
        Some e \<Rightarrow> (Inl e, s)
      | None \<Rightarrow>
         (case modality_results be c opts reqs s of
            (Inl e, s1) \<Rightarrow> (Inl e, s1)
          | (Inr rs, s1) \<Rightarrow>
              (Inr (slice0 (sort_by by_score_desc (map snd (foldl merge_result [] rs)))
                     (effective_limit opts)), s1)))"
  by (simp add: hybridSearch_def process_requests_modality_results
      split: option.splits prod.splits sum.splits)

lemma map_of_merge_result:
  "map_of (merge_result acc r) =
     (map_of acc)(result_id r \<mapsto>
        (case map_of acc (result_id r) of
           Some e \<Rightarrow> e\<lparr>score := (score e + score r) / 2\<rparr>
         | None \<Rightarrow> \<lparr>document = document r, score = score r\<rparr>))"
  by (simp add: merge_result_def result_id_def update_conv' split: option.split)

lemma keys_merge_result:
  "map fst (merge_result acc r) =
     (if result_id r \<in> set (map fst acc) then map fst acc else map fst acc @ [result_id r])"
  by (simp add: merge_result_def result_id_def update_keys split: option.split)

lemma map_of_fold_merge:
  "map_of (foldl merge_result [] rs) k =
     (case filter (\<lambda>r. result_id r = k) rs of
        [] \<Rightarrow> None
      | r # later \<Rightarrow>
          Some \<lparr>document = document r,
                score = foldl (\<lambda>a b. (a + b) / 2) (score r) (map score later)\<rparr>)"
proof (induction rs rule: rev_induct)
  case Nil
  show ?case by simp
next
  case (snoc r rs)
  show ?case
  proof (cases "result_id r = k")
    case True
    with snoc show ?thesis
      by (simp add: map_of_merge_result split: list.splits)
  next
    case False
    with snoc show ?thesis
      by (simp add: map_of_merge_result)
  qed
qed

lemma keys_fold_merge_set:
  "set (map fst (foldl merge_result acc rs)) = set (map fst acc) \<union> result_id ` set rs"
proof (induction rs arbitrary: acc)
  case Nil
  show ?case by simp
next
  case (Cons r rs)
  have "set (map fst (merge_result acc r)) = insert (result_id r) (set (map fst acc))"
    by (auto simp: keys_merge_result)
  with Cons.IH [of "merge_result acc r"] show ?case by auto
qed

lemma distinct_merge_result:
  "distinct (map fst acc) \<Longrightarrow> distinct (map fst (merge_result acc r))"
  by (simp add: keys_merge_result)

lemma distinct_fold_merge:
  "distinct (map fst acc) \<Longrightarrow> distinct (map fst (foldl merge_result acc rs))"
  by (induction rs arbitrary: acc) (simp_all add: distinct_merge_result)

lemma keyed_update:
  "keyed acc \<Longrightarrow> result_id v = k \<Longrightarrow> keyed (AList.update k v acc)"
  by (induction acc) (auto simp: keyed_def)

lemma keyed_map_of: "keyed acc \<Longrightarrow> map_of acc k = Some v \<Longrightarrow> result_id v = k"
  by (induction acc) (auto simp: keyed_def split: if_splits)

lemma keyed_merge_result: "keyed acc \<Longrightarrow> keyed (merge_result acc r)"
  unfolding merge_result_def
  by (auto split: option.split intro!: keyed_update dest: keyed_map_of simp: result_id_def)

lemma keyed_fold_merge: "keyed acc \<Longrightarrow> keyed (foldl merge_result acc rs)"
  by (induction rs arbitrary: acc) (simp_all add: keyed_merge_result)

lemma keyed_ids: "keyed acc \<Longrightarrow> map result_id (map snd acc) = map fst acc"
  by (induction acc) (auto simp: keyed_def)


section \<open>Sorting and truncation\<close>

lemma set_insort_by: "set (insort_by c x ys) = insert x (set ys)"
  by (induction ys) auto

lemma set_sort_by: "set (sort_by c xs) = set xs"
  by (induction xs) (simp_all add: sort_by_def set_insort_by)

lemma distinct_map_insort_by:
  "distinct (map f (insort_by c x ys)) = (f x \<notin> f ` set ys \<and> distinct (map f ys))"
  by (induction ys) (auto simp: set_insort_by)

lemma distinct_map_sort_by: "distinct (map f (sort_by c xs)) = distinct (map f xs)"
  by (induction xs) (simp_all add: sort_by_def distinct_map_insort_by set_sort_by [unfolded sort_by_def])

lemma insort_ranked:
  "sorted_wrt (ranked g) ys \<Longrightarrow> \<forall>y\<in>set ys. g x < g y
     \<Longrightarrow> sorted_wrt (ranked g) (insort_by by_score_desc x ys)"
proof (induction ys)
  case Nil
  show ?case by simp
next
  case (Cons y ys)
  show ?case
  proof (cases "by_score_desc x y \<le> 0")
    case True
    then have xy: "score y \<le> score x"
      by (simp add: by_score_desc_def)
    have "ranked g x z" if "z \<in> set (y # ys)" for z
    proof -
      from that Cons.prems(1) have "score z \<le> score y"
        by (auto simp: ranked_def)
      with xy have "score z \<le> score x" by simp
      moreover from that Cons.prems(2) have "g x < g z" by auto
      ultimately show ?thesis by (auto simp: ranked_def)
    qed
    with Cons.prems(1) True show ?thesis by simp
  next
    case False
    with Cons show ?thesis
      by (auto simp: ranked_def by_score_desc_def set_insort_by)
  qed
qed

lemma sort_ranked:
  "sorted_wrt (\<lambda>a b. g a < g b) xs \<Longrightarrow> sorted_wrt (ranked g) (sort_by by_score_desc xs)"
proof (induction xs)
  case Nil
  show ?case by (simp add: sort_by_def)
next
  case (Cons x xs)
  from Cons have "sorted_wrt (ranked g) (sort_by by_score_desc xs)" by simp
  moreover from Cons.prems have "\<forall>y\<in>set (sort_by by_score_desc xs). g x < g y"
    by (simp add: set_sort_by)
  ultimately have "sorted_wrt (ranked g) (insort_by by_score_desc x (sort_by by_score_desc xs))"
    by (rule insort_ranked)
  then show ?case by (simp add: sort_by_def)
qed

lemma first_index_less: "a \<in> set xs \<Longrightarrow> first_index xs a < length xs"
  by (induction xs) auto

lemma first_index_append_in: "a \<in> set xs \<Longrightarrow> first_index (xs @ ys) a = first_index xs a"
  by (induction xs) auto

lemma first_index_append_notin:
  "a \<notin> set xs \<Longrightarrow> first_index (xs @ ys) a = length xs + first_index ys a"
  by (induction xs) auto

lemma keys_fold_merge_order:
  "sorted_wrt (\<lambda>a b. first_index (map result_id rs) a < first_index (map result_id rs) b)
     (map fst (foldl merge_result [] rs))"
proof (induction rs rule: rev_induct)
  case Nil
  show ?case by simp
next
  case (snoc r rs)
  let ?ids = "map result_id rs"
  let ?keys = "map fst (foldl merge_result [] rs)"
  have keys: "set ?keys = set ?ids"
    using keys_fold_merge_set [of "[]" rs] by simp
  have old: "sorted_wrt (\<lambda>a b. first_index (?ids @ [result_id r]) a
                 < first_index (?ids @ [result_id r]) b) ?keys"
  proof (rule sorted_wrt_mono_rel [OF _ snoc])
    fix a b
    assume "a \<in> set ?keys" and "b \<in> set ?keys"
      and "first_index ?ids a < first_index ?ids b"
    with keys show "first_index (?ids @ [result_id r]) a < first_index (?ids @ [result_id r]) b"
      by (simp add: first_index_append_in)
  qed
  show ?case
  proof (cases "result_id r \<in> set ?keys")
    case True
    with old show ?thesis by (simp add: keys_merge_result)
  next
    case False
    have "first_index (?ids @ [result_id r]) a
            < first_index (?ids @ [result_id r]) (result_id r)" if "a \<in> set ?keys" for a
    proof -
      from that keys have a: "a \<in> set ?ids" by simp
      from False keys have k: "result_id r \<notin> set ?ids" by simp
      from a have "first_index ?ids a < length ?ids" by (rule first_index_less)
      with a k show ?thesis
        by (simp add: first_index_append_in first_index_append_notin)
    qed
    with old False show ?thesis
      by (simp add: keys_merge_result sorted_wrt_append)
  qed
qed

lemma values_fold_merge_order:
  "sorted_wrt (\<lambda>a b. first_index (map result_id rs) (result_id a)
                    < first_index (map result_id rs) (result_id b))
     (map snd (foldl merge_result [] rs))"
proof -
  have "keyed (foldl merge_result [] rs)"
    by (rule keyed_fold_merge) (simp add: keyed_def)
  then have "map result_id (map snd (foldl merge_result [] rs)) = map fst (foldl merge_result [] rs)"
    by (rule keyed_ids)
  with keys_fold_merge_order [of rs]
  have "sorted_wrt (\<lambda>a b. first_index (map result_id rs) a < first_index (map result_id rs) b)
     (map result_id (map snd (foldl merge_result [] rs)))"
    by (simp only:)
  then show ?thesis
    by (simp only: sorted_wrt_map)
qed

lemma fused_ranked:
  "sorted_wrt (ranked (\<lambda>r. first_index (map result_id rs) (result_id r)))
     (slice0 (sort_by by_score_desc (map snd (foldl merge_result [] rs))) n)"
proof -
  have "sorted_wrt (ranked (\<lambda>r. first_index (map result_id rs) (result_id r)))
     (sort_by by_score_desc (map snd (foldl merge_result [] rs)))"
    by (rule sort_ranked) (rule values_fold_merge_order)
  then show ?thesis
    by (auto simp: slice0_def sorted_wrt_take)
qed

lemma fused_distinct:
  "distinct (map result_id (slice0 (sort_by by_score_desc (map snd (foldl merge_result [] rs))) n))"
proof -
  have k: "keyed (foldl merge_result [] rs)"
    by (rule keyed_fold_merge) (simp add: keyed_def)
  have "distinct (map fst (foldl merge_result [] rs))"
    by (rule distinct_fold_merge) simp
  with keyed_ids [OF k] have "distinct (map result_id (map snd (foldl merge_result [] rs)))"
    by (simp only:)
  then have "distinct (map result_id (sort_by by_score_desc (map snd (foldl merge_result [] rs))))"
    by (simp only: distinct_map_sort_by)
  then show ?thesis
    by (auto simp: slice0_def take_map [symmetric] distinct_take simp del: take_map)
qed


section \<open>The scenario, evaluated\<close>

lemma scenario_init: "init_error scenario_backend = None"
  by (simp add: scenario_backend_def)

lemma scenario_stream:
  "modality_results scenario_backend ''code'' scenario_options scenario_requests () =
     (Inr scenario_stream_results, ())"
  by (simp add: scenario_requests_def dense_request_def text_request_def scenario_backend_def
      scenario_stream_results_def request_results_def dense_shape_def lexical_shape_def
      search_def text_search_def search_params_def text_params_def)

lemma scenario_output:
  "hybridSearch scenario_backend ''code'' scenario_requests scenario_options () =
     (Inr scenario_fused, ())"
proof -
  have "slice0 (sort_by by_score_desc (map snd (foldl merge_result [] scenario_stream_results)))
          (effective_limit scenario_options) = scenario_fused"
    by (simp add: scenario_stream_results_def scenario_fused_def scenario_options_def
        hit_result_def scenario_hit_def similarity_def distance_or_zero_def merge_result_def
        sort_by_def by_score_desc_def slice0_def effective_limit_def)
  then show ?thesis
    by (simp add: hybridSearch_modality_results scenario_stream scenario_init)
qed

lemma scenario_search:
  "search scenario_backend ''code'' [1, 0]
      \<lparr>topK = Some 10, filter_obj = None, filterExpr = None\<rparr> () =
     (Inr (map (hit_result [1, 0]) [scenario_hit ''x'' (1 / 10), scenario_hit ''y'' (3 / 10)]), ())"
  by (simp add: search_def scenario_backend_def search_params_def)

lemma scenario_text_search:
  "text_search scenario_backend ''code'' text_request scenario_options () =
     (Inr (map (hit_result []) [scenario_hit ''x'' (5 / 10), scenario_hit ''z'' (2 / 10)]), ())"
  by (simp add: text_search_def scenario_backend_def text_params_def)

section \<open>Score bound\<close>

lemma search_hits:
  assumes "search be c qv so s = (Inr rs, s1)"
  shows "\<exists>hits s0. collection_query be c (search_params qv so) s0 = (Inr hits, s1)
           \<and> rs = map (hit_result qv) hits"
  using assms
  by (auto simp: search_def split: option.splits prod.splits sum.splits)

lemma text_search_hits:
  assumes "text_search be c req opts s = (Inr rs, s1)"
  shows "\<exists>hits s0. collection_query be c (text_params req opts) s0 = (Inr hits, s1)
           \<and> rs = map (hit_result []) hits"
  using assms
  by (auto simp: text_search_def split: option.splits prod.splits sum.splits)

lemma similarity_bound:
  "0 \<le> d \<Longrightarrow> 0 \<le> similarity d \<and> similarity d \<le> 1
     \<and> (d = 0 \<longrightarrow> similarity d = 1) \<and> (1 \<le> d \<longrightarrow> similarity d = 0)"
  by (simp add: similarity_def)

text \<open>
  Claim C6. For a hit whose raw distance is at least 0, the score of the result lies
  in [0, 1]; distance 0 gives score 1 and every distance of at least 1 gives score 0.
  This holds on both paths: the results of \<^verbatim>\<open>search\<close> and the results of the text
  branch are the hits of the backend's answer, each read by the same loop body (with
  the query vector, respectively the empty vector, stored in the document).
\<close>

theorem score_bound:
  "(hit_distance h = Some d \<and> 0 \<le> d \<longrightarrow>
      0 \<le> score (hit_result v h) \<and> score (hit_result v h) \<le> 1
      \<and> (d = 0 \<longrightarrow> score (hit_result v h) = 1)
      \<and> (1 \<le> d \<longrightarrow> score (hit_result v h) = 0))
   \<and> (search be c qv so s = (Inr rs, s1) \<longrightarrow>
        (\<exists>hits s0. collection_query be c (search_params qv so) s0 = (Inr hits, s1)
           \<and> rs = map (hit_result qv) hits))
   \<and> (text_search be c req opts s = (Inr rs', s2) \<longrightarrow>
        (\<exists>hits s0. collection_query be c (text_params req opts) s0 = (Inr hits, s2)
           \<and> rs' = map (hit_result []) hits))"
proof -
  have a: "hit_distance h = Some d \<and> 0 \<le> d \<longrightarrow>
      0 \<le> score (hit_result v h) \<and> score (hit_result v h) \<le> 1
      \<and> (d = 0 \<longrightarrow> score (hit_result v h) = 1)
      \<and> (1 \<le> d \<longrightarrow> score (hit_result v h) = 0)"
  proof
    assume "hit_distance h = Some d \<and> 0 \<le> d"
    then have s: "score (hit_result v h) = similarity d" and d: "0 \<le> d"
      by (simp_all add: hit_result_def distance_or_zero_def Let_def)
    from similarity_bound [OF d]
    show "0 \<le> score (hit_result v h) \<and> score (hit_result v h) \<le> 1
      \<and> (d = 0 \<longrightarrow> score (hit_result v h) = 1)
      \<and> (1 \<le> d \<longrightarrow> score (hit_result v h) = 0)"
      by (simp add: s)
  qed
  have b: "search be c qv so s = (Inr rs, s1) \<longrightarrow>
        (\<exists>hits s0. collection_query be c (search_params qv so) s0 = (Inr hits, s1)
           \<and> rs = map (hit_result qv) hits)"
    by (rule impI) (rule search_hits)
  have c: "text_search be c req opts s = (Inr rs', s2) \<longrightarrow>
        (\<exists>hits s0. collection_query be c (text_params req opts) s0 = (Inr hits, s2)
           \<and> rs' = map (hit_result []) hits)"
    by (rule impI) (rule text_search_hits)
  from a b c show ?thesis by (intro conjI)
qed

theorem score_bound_witness:
  "hit_distance (scenario_hit ''y'' (3 / 10)) = Some (3 / 10) \<and> (0::real) \<le> 3 / 10
   \<and> 0 \<le> score (hit_result [1, 0] (scenario_hit ''y'' (3 / 10)))
   \<and> score (hit_result [1, 0] (scenario_hit ''y'' (3 / 10))) \<le> 1
   \<and> search scenario_backend ''code'' [1, 0]
        \<lparr>topK = Some 10, filter_obj = None, filterExpr = None\<rparr> () =
      (Inr (map (hit_result [1, 0]) [scenario_hit ''x'' (1 / 10), scenario_hit ''y'' (3 / 10)]), ())
   \<and> (\<exists>hits s0. collection_query scenario_backend ''code''
          (search_params [1, 0] \<lparr>topK = Some 10, filter_obj = None, filterExpr = None\<rparr>) s0
            = (Inr hits, ())
        \<and> map (hit_result [1, 0]) [scenario_hit ''x'' (1 / 10), scenario_hit ''y'' (3 / 10)]
            = map (hit_result [1, 0]) hits)
   \<and> text_search scenario_backend ''code'' text_request scenario_options () =
      (Inr (map (hit_result []) [scenario_hit ''x'' (5 / 10), scenario_hit ''z'' (2 / 10)]), ())
   \<and> (\<exists>hits s0. collection_query scenario_backend ''code''
          (text_params text_request scenario_options) s0 = (Inr hits, ())
        \<and> map (hit_result []) [scenario_hit ''x'' (5 / 10), scenario_hit ''z'' (2 / 10)]
            = map (hit_result []) hits)"
proof -
  have d: "hit_distance (scenario_hit ''y'' (3 / 10)) = Some (3 / 10) \<and> (0::real) \<le> 3 / 10"
    by (simp add: scenario_hit_def)
  note sb = score_bound [where h = "scenario_hit ''y'' (3 / 10)" and d = "3 / 10"
      and v = "[1, 0]" and be = scenario_backend and c = "''code''" and qv = "[1, 0]"
      and so = "\<lparr>topK = Some 10, filter_obj = None, filterExpr = None\<rparr>" and s = "()"
      and rs = "map (hit_result [1, 0]) [scenario_hit ''x'' (1 / 10), scenario_hit ''y'' (3 / 10)]"
      and ?s1.0 = "()" and req = text_request and opts = scenario_options
      and rs' = "map (hit_result []) [scenario_hit ''x'' (5 / 10), scenario_hit ''z'' (2 / 10)]"
      and ?s2.0 = "()"]
  from sb d scenario_search scenario_text_search show ?thesis
    by blast
qed


section \<open>Merge rule\<close>

text \<open>
  Claim C3. Whenever the requests of a fusion call produce the stream \<open>rs\<close> of
  per-modality results, the accumulator built by the request loop holds, for every
  document id \<open>k\<close>: nothing if \<open>k\<close> never occurs in \<open>rs\<close>; otherwise the document of the
  first occurrence, with the score of the first occurrence averaged pairwise, in order,
  with the score of each later occurrence (so a single occurrence keeps its score
  unchanged). And in the scenario dense = [x: 0.9, y: 0.7], lexical = [x: 0.5, z: 0.8],
  limit 3, the fused output is [z: 0.8, x: 0.7, y: 0.7] in that order.
\<close>

theorem merge_rule:
  "(modality_results be c opts reqs s = (Inr rs, s1) \<longrightarrow>
      (\<exists>acc. process_requests be c opts reqs [] s = (Inr acc, s1) \<and>
         (\<forall>k. map_of acc k =
            (case filter (\<lambda>r. result_id r = k) rs of
               [] \<Rightarrow> None
             | first # later \<Rightarrow>
                 Some \<lparr>document = document first,
                       score = foldl (\<lambda>a b. (a + b) / 2) (score first) (map score later)\<rparr>))))
   \<and> ids_scores (hybridSearch scenario_backend ''code'' scenario_requests scenario_options ())
       = Some [(''z'', 8 / 10), (''x'', 7 / 10), (''y'', 7 / 10)]"
proof (intro conjI impI)
  assume "modality_results be c opts reqs s = (Inr rs, s1)"
  then have "process_requests be c opts reqs [] s = (Inr (foldl merge_result [] rs), s1)"
    by (simp add: process_requests_modality_results)
  then show "\<exists>acc. process_requests be c opts reqs [] s = (Inr acc, s1) \<and>
         (\<forall>k. map_of acc k =
            (case filter (\<lambda>r. result_id r = k) rs of
               [] \<Rightarrow> None
             | first # later \<Rightarrow>
                 Some \<lparr>document = document first,
                       score = foldl (\<lambda>a b. (a + b) / 2) (score first) (map score later)\<rparr>))"
    using map_of_fold_merge [of rs] by blast
next
  show "ids_scores (hybridSearch scenario_backend ''code'' scenario_requests scenario_options ())
       = Some [(''z'', 8 / 10), (''x'', 7 / 10), (''y'', 7 / 10)]"
    by (simp add: scenario_output ids_scores_def scenario_fused_def result_id_def
        hit_result_def scenario_hit_def similarity_def distance_or_zero_def)
qed

theorem merge_rule_witness:
  "modality_results scenario_backend ''code'' scenario_options scenario_requests () =
     (Inr scenario_stream_results, ())
   \<and> (\<exists>acc. process_requests scenario_backend ''code'' scenario_options
         scenario_requests [] () = (Inr acc, ()) \<and>
         (\<forall>k. map_of acc k =
            (case filter (\<lambda>r. result_id r = k) scenario_stream_results of
               [] \<Rightarrow> None
             | first # later \<Rightarrow>
                 Some \<lparr>document = document first,
                       score = foldl (\<lambda>a b. (a + b) / 2) (score first) (map score later)\<rparr>)))"
  using merge_rule [THEN conjunct1, THEN mp, OF scenario_stream] scenario_stream
  by (rule conjI [rotated])

section \<open>Order of the fused output\<close>

text \<open>
  Claim C4. The output of every successful \<^verbatim>\<open>hybridSearch\<close> call is sorted by
  descending score, and of two entries with equal score the one whose document id is
  met first in the stream of per-modality results (the requests processed in input
  order, each result list in backend order) comes first.
\<close>

theorem fused_order:
  assumes "hybridSearch be c reqs opts s = (Inr out, s1)"
  shows "\<exists>rs. modality_results be c opts reqs s = (Inr rs, s1)
      \<and> sorted_wrt (\<lambda>a b. score b \<le> score a) out
      \<and> (\<forall>i j. i < j \<and> j < length out \<and> score (out ! i) = score (out ! j) \<longrightarrow>
            first_index (map result_id rs) (result_id (out ! i))
              < first_index (map result_id rs) (result_id (out ! j)))"
proof -
  from assms obtain rs where rs: "modality_results be c opts reqs s = (Inr rs, s1)"
    and out: "out = slice0 (sort_by by_score_desc (map snd (foldl merge_result [] rs)))
                (effective_limit opts)"
    by (auto simp: hybridSearch_modality_results split: option.splits prod.splits sum.splits)
  let ?g = "\<lambda>r. first_index (map result_id rs) (result_id r)"
  have ranked: "sorted_wrt (ranked ?g) out"
    unfolding out by (rule fused_ranked)
  have desc: "sorted_wrt (\<lambda>a b. score b \<le> score a) out"
    by (rule sorted_wrt_mono_rel [OF _ ranked]) (auto simp: ranked_def)
  have ties: "?g (out ! i) < ?g (out ! j)"
    if "i < j \<and> j < length out \<and> score (out ! i) = score (out ! j)" for i j
  proof -
    from that ranked have "ranked ?g (out ! i) (out ! j)"
      by (simp add: sorted_wrt_iff_nth_less)
    with that show ?thesis by (simp add: ranked_def)
  qed
  from rs desc ties show ?thesis by blast
qed

theorem fused_order_witness:
  "hybridSearch scenario_backend ''code'' scenario_requests scenario_options () =
     (Inr scenario_fused, ())
   \<and> (1::nat) < 2 \<and> 2 < length scenario_fused
   \<and> score (scenario_fused ! 1) = score (scenario_fused ! 2)
   \<and> (\<exists>rs. modality_results scenario_backend ''code'' scenario_options scenario_requests ()
              = (Inr rs, ())
      \<and> sorted_wrt (\<lambda>a b. score b \<le> score a) scenario_fused
      \<and> first_index (map result_id rs) (result_id (scenario_fused ! 1))
              < first_index (map result_id rs) (result_id (scenario_fused ! 2)))"
proof -
  have len: "2 < length scenario_fused"
    by (simp add: scenario_fused_def)
  have tie: "score (scenario_fused ! 1) = score (scenario_fused ! 2)"
    by (simp add: scenario_fused_def hit_result_def scenario_hit_def similarity_def
        distance_or_zero_def)
  from fused_order [OF scenario_output] obtain rs where
    rs: "modality_results scenario_backend ''code'' scenario_options scenario_requests ()
              = (Inr rs, ())"
    and desc: "sorted_wrt (\<lambda>a b. score b \<le> score a) scenario_fused"
    and ties: "\<forall>i j. i < j \<and> j < length scenario_fused
              \<and> score (scenario_fused ! i) = score (scenario_fused ! j) \<longrightarrow>
            first_index (map result_id rs) (result_id (scenario_fused ! i))
              < first_index (map result_id rs) (result_id (scenario_fused ! j))"
    by blast
  from ties len tie
  have "first_index (map result_id rs) (result_id (scenario_fused ! 1))
              < first_index (map result_id rs) (result_id (scenario_fused ! 2))"
    by (metis one_less_numeral_iff semiring_norm(76))
  with rs desc scenario_output len tie show ?thesis by auto
qed


section \<open>No duplicate ids\<close>

text \<open>
  Claim C7. The output of every successful \<^verbatim>\<open>hybridSearch\<close> call, whatever the
  requests and however their result lists overlap, has no two entries with the same
  document id.
\<close>

theorem fused_no_duplicates:
  assumes "hybridSearch be c reqs opts s = (Inr out, s1)"
  shows "distinct (map result_id out)"
proof -
  from assms obtain rs where
    "out = slice0 (sort_by by_score_desc (map snd (foldl merge_result [] rs)))
                (effective_limit opts)"
    by (auto simp: hybridSearch_modality_results split: option.splits prod.splits sum.splits)
  then show ?thesis by (simp only: fused_distinct)
qed

theorem fused_no_duplicates_witness:
  "hybridSearch scenario_backend ''code'' scenario_requests scenario_options () =
     (Inr scenario_fused, ())
   \<and> distinct (map result_id scenario_fused)"
  using fused_no_duplicates [OF scenario_output] scenario_output
  by (rule conjI [rotated])

section \<open>Requests of neither shape\<close>

lemma process_requests_skip:
  assumes "\<not> dense_shape r" and "\<not> lexical_shape r"
  shows "process_requests be c opts (pre @ r # post) acc s
       = process_requests be c opts (pre @ post) acc s"
proof (induction pre arbitrary: acc s)
  case Nil
  from assms show ?case by (simp add: request_results_def)
next
  case (Cons q pre)
  then show ?case by (simp split: prod.splits sum.splits)
qed

text \<open>
  Claim C10. A request that has neither the dense shape (\<^verbatim>\<open>anns_field\<close> 'vector' and
  an array payload) nor the lexical shape (\<^verbatim>\<open>anns_field\<close> 'sparse_vector', or a string
  payload) yields no results, no error and no backend call, and the whole call returns
  what it returns without that request, on the same backend state.
\<close>

theorem unmatched_request_skipped:
  assumes "\<not> dense_shape r" and "\<not> lexical_shape r"
  shows "request_results be c opts r s = (Inr [], s)
       \<and> hybridSearch be c (pre @ r # post) opts s = hybridSearch be c (pre @ post) opts s"
  using assms
  by (cases "init_error be")
     (simp_all add: request_results_def hybridSearch_def process_requests_skip)

theorem unmatched_request_skipped_witness:
  "\<not> dense_shape unmatched_request \<and> \<not> lexical_shape unmatched_request
   \<and> request_results scenario_backend ''code'' scenario_options unmatched_request ()
       = (Inr [], ())
   \<and> hybridSearch scenario_backend ''code''
        ([dense_request] @ unmatched_request # [text_request]) scenario_options ()
     = hybridSearch scenario_backend ''code''
        ([dense_request] @ [text_request]) scenario_options ()"
proof -
  have d: "\<not> dense_shape unmatched_request"
    by (simp add: dense_shape_def unmatched_request_def)
  have l: "\<not> lexical_shape unmatched_request"
    by (simp add: lexical_shape_def unmatched_request_def)
  from d l unmatched_request_skipped [OF d l, where be = scenario_backend and c = "''code''"
      and opts = scenario_options and s = "()" and pre = "[dense_request]"
      and post = "[text_request]"]
  show ?thesis by blast
qed

section \<open>The vector of a returned document\<close>

lemma hit_result_vector: "vector (document (hit_result v h)) = v"
  by (simp add: hit_result_def Let_def)

lemma search_vector:
  "search be c qv so s = (Inr rs, s1) \<Longrightarrow> r \<in> set rs \<Longrightarrow> vector (document r) = qv"
  by (auto simp: search_def hit_result_vector split: option.splits prod.splits sum.splits)

lemma text_search_vector:
  "text_search be c req opts s = (Inr rs, s1) \<Longrightarrow> r \<in> set rs \<Longrightarrow> vector (document r) = []"
  by (auto simp: text_search_def hit_result_vector split: option.splits prod.splits sum.splits)

lemma request_results_vector:
  "request_results be c opts req s = (Inr rs, s1) \<Longrightarrow> r \<in> set rs
     \<Longrightarrow> vector_origin [req] (document r)"
  by (auto simp: request_results_def vector_origin_def split: if_splits payload.splits
      dest: search_vector text_search_vector)

lemma vector_origin_mono: "vector_origin reqs d \<Longrightarrow> set reqs \<subseteq> set reqs' \<Longrightarrow> vector_origin reqs' d"
  by (auto simp: vector_origin_def)

lemma modality_results_vector:
  "modality_results be c opts reqs s = (Inr rs, s1) \<Longrightarrow> r \<in> set rs
     \<Longrightarrow> vector_origin reqs (document r)"
proof (induction reqs arbitrary: s rs)
  case Nil
  then show ?case by simp
next
  case (Cons req reqs)
  from Cons.prems(1) obtain xs s' ys where
    xs: "request_results be c opts req s = (Inr xs, s')" and
    ys: "modality_results be c opts reqs s' = (Inr ys, s1)" and
    rs: "rs = xs @ ys"
    by (auto split: prod.splits sum.splits)
  from Cons.prems(2) rs consider "r \<in> set xs" | "r \<in> set ys" by auto
  then show ?case
  proof cases
    case 1
    from request_results_vector [OF xs 1] show ?thesis
      by (rule vector_origin_mono) simp
  next
    case 2
    from Cons.IH [OF ys 2] show ?thesis
      by (rule vector_origin_mono) auto
  qed
qed

lemma set_update_subset: "set (AList.update k v al) \<subseteq> insert (k, v) (set al)"
  by (induction al) auto

lemma merge_result_documents:
  assumes "\<And>k v. (k, v) \<in> set acc \<Longrightarrow> P (document v)" and "P (document r)"
    and "(k, v) \<in> set (merge_result acc r)"
  shows "P (document v)"
proof (cases "map_of acc (doc_id (document r))")
  case None
  with assms(3) set_update_subset
  have "(k, v) = (doc_id (document r), \<lparr>document = document r, score = score r\<rparr>) \<or> (k, v) \<in> set acc"
    by (fastforce simp: merge_result_def)
  with assms(1,2) show ?thesis by auto
next
  case (Some e)
  then have e: "P (document e)"
    using assms(1) by (auto dest: map_of_SomeD)
  from Some assms(3) set_update_subset
  have "(k, v) = (doc_id (document r), e\<lparr>score := (score e + score r) / 2\<rparr>) \<or> (k, v) \<in> set acc"
    by (fastforce simp: merge_result_def)
  with assms(1) e show ?thesis by auto
qed

lemma fold_merge_documents:
  assumes "\<And>r. r \<in> set rs \<Longrightarrow> P (document r)"
  shows "(\<And>k v. (k, v) \<in> set acc \<Longrightarrow> P (document v))
     \<Longrightarrow> (k, v) \<in> set (foldl merge_result acc rs) \<Longrightarrow> P (document v)"
  using assms
proof (induction rs arbitrary: acc)
  case Nil
  then show ?case by simp
next
  case (Cons r rs)
  show ?case
  proof (rule Cons.IH [of "merge_result acc r"])
    fix k' v' assume "(k', v') \<in> set (merge_result acc r)"
    then show "P (document v')"
      by (rule merge_result_documents [rotated 2]) (auto intro: Cons.prems)
  next
    show "(k, v) \<in> set (foldl merge_result (merge_result acc r) rs)"
      using Cons.prems(2) by simp
  next
    fix x assume "x \<in> set rs" then show "P (document x)" by (simp add: Cons.prems)
  qed
qed

lemma set_slice0: "set (slice0 xs n) \<subseteq> set xs"
  by (auto simp: slice0_def dest: in_set_takeD)

text \<open>
  Claim C9. The vector of a returned document is never read from the store (the queries
  do not even ask for embeddings): every result of \<^verbatim>\<open>search\<close> carries the caller's
  query vector, every result of the text branch carries the empty vector, and every
  document of a fused output carries the empty vector or the payload of one of the
  dense requests of the call.
\<close>

theorem result_vector:
  "(search be c qv so s = (Inr rs, s1) \<longrightarrow> (\<forall>r\<in>set rs. vector (document r) = qv))
   \<and> (text_search be c req opts s = (Inr rs', s2) \<longrightarrow> (\<forall>r\<in>set rs'. vector (document r) = []))
   \<and> (hybridSearch be c reqs opts s = (Inr out, s3) \<longrightarrow>
        (\<forall>r\<in>set out. vector (document r) = []
           \<or> (\<exists>req\<in>set reqs. dense_shape req \<and> data req = Vec (vector (document r)))))"
proof (intro conjI impI ballI)
  fix r assume "search be c qv so s = (Inr rs, s1)" and "r \<in> set rs"
  then show "vector (document r) = qv" by (rule search_vector)
next
  fix r assume "text_search be c req opts s = (Inr rs', s2)" and "r \<in> set rs'"
  then show "vector (document r) = []" by (rule text_search_vector)
next
  fix r assume h: "hybridSearch be c reqs opts s = (Inr out, s3)" and r: "r \<in> set out"
  from h obtain xs where xs: "modality_results be c opts reqs s = (Inr xs, s3)"
    and out: "out = slice0 (sort_by by_score_desc (map snd (foldl merge_result [] xs)))
                (effective_limit opts)"
    by (auto simp: hybridSearch_modality_results split: option.splits prod.splits sum.splits)
  have "set out \<subseteq> set (sort_by by_score_desc (map snd (foldl merge_result [] xs)))"
    unfolding out by (rule set_slice0)
  with r have "r \<in> set (map snd (foldl merge_result [] xs))"
    by (auto simp: set_sort_by)
  then obtain k where "(k, r) \<in> set (foldl merge_result [] xs)" by auto
  then have "vector_origin reqs (document r)"
    by (rule fold_merge_documents [rotated 2]) (auto intro: modality_results_vector [OF xs])
  then show "vector (document r) = []
      \<or> (\<exists>req\<in>set reqs. dense_shape req \<and> data req = Vec (vector (document r)))"
    by (simp add: vector_origin_def)
qed


theorem result_vector_witness:
  "search scenario_backend ''code'' [1, 0]
      \<lparr>topK = Some 10, filter_obj = None, filterExpr = None\<rparr> () =
     (Inr (map (hit_result [1, 0]) [scenario_hit ''x'' (1 / 10), scenario_hit ''y'' (3 / 10)]), ())
   \<and> vector (document (hit_result [1, 0] (scenario_hit ''y'' (3 / 10)))) = [1, 0]
   \<and> text_search scenario_backend ''code'' text_request scenario_options () =
     (Inr (map (hit_result []) [scenario_hit ''x'' (5 / 10), scenario_hit ''z'' (2 / 10)]), ())
   \<and> vector (document (hit_result [] (scenario_hit ''z'' (2 / 10)))) = []
   \<and> hybridSearch scenario_backend ''code'' scenario_requests scenario_options () =
     (Inr scenario_fused, ())
   \<and> (vector (document (scenario_fused ! 1)) = []
      \<or> (\<exists>req\<in>set scenario_requests.
            dense_shape req \<and> data req = Vec (vector (document (scenario_fused ! 1)))))"
proof -
  note rv = result_vector [where be = scenario_backend and c = "''code''" and s = "()"
      and qv = "[1, 0]" and so = "\<lparr>topK = Some 10, filter_obj = None, filterExpr = None\<rparr>"
      and rs = "map (hit_result [1, 0]) [scenario_hit ''x'' (1 / 10), scenario_hit ''y'' (3 / 10)]"
      and ?s1.0 = "()" and req = text_request and opts = scenario_options
      and rs' = "map (hit_result []) [scenario_hit ''x'' (5 / 10), scenario_hit ''z'' (2 / 10)]"
      and ?s2.0 = "()" and reqs = scenario_requests and out = scenario_fused and ?s3.0 = "()"]
  from rv scenario_search
  have a: "\<forall>r\<in>set (map (hit_result [1, 0]) [scenario_hit ''x'' (1 / 10), scenario_hit ''y'' (3 / 10)]).
      vector (document r) = [1, 0]" by blast
  then have a': "vector (document (hit_result [1, 0] (scenario_hit ''y'' (3 / 10)))) = [1, 0]"
    by simp
  from rv scenario_text_search
  have b: "\<forall>r\<in>set (map (hit_result []) [scenario_hit ''x'' (5 / 10), scenario_hit ''z'' (2 / 10)]).
      vector (document r) = []" by blast
  then have b': "vector (document (hit_result [] (scenario_hit ''z'' (2 / 10)))) = []"
    by simp
  from rv scenario_output
  have c: "\<forall>r\<in>set scenario_fused. vector (document r) = []
           \<or> (\<exists>req\<in>set scenario_requests. dense_shape req \<and> data req = Vec (vector (document r)))"
    by blast
  have "scenario_fused ! 1 \<in> set scenario_fused"
    by (simp add: scenario_fused_def)
  with c have c': "vector (document (scenario_fused ! 1)) = []
      \<or> (\<exists>req\<in>set scenario_requests.
            dense_shape req \<and> data req = Vec (vector (document (scenario_fused ! 1))))"
    by (rule bspec)
  from scenario_search a' scenario_text_search b' scenario_output c' show ?thesis
    by (intro conjI)
qed

section \<open>Metadata round trip\<close>

lemma or_default_string: "is_string x \<Longrightarrow> or_default (Some x) (JStr []) = x"
  by (cases x) (auto simp: or_default_def)

lemma or_default_number: "is_number x \<Longrightarrow> or_default (Some x) (JNum 0) = x"
  by (cases x) (auto simp: or_default_def)

lemma insert_metadata_reserved:
  assumes "dom md \<inter> set reserved_keys = {}" and "metadata doc = md"
  shows "insert_metadata doc ''relativePath'' = Some (relativePath doc)"
    and "insert_metadata doc ''startLine'' = Some (startLine doc)"
    and "insert_metadata doc ''endLine'' = Some (endLine doc)"
    and "insert_metadata doc ''fileExtension'' = Some (fileExtension doc)"
  using assms by (auto simp: insert_metadata_def reserved_keys_def map_add_def split: option.split)

lemma insert_metadata_residual:
  assumes "dom (metadata doc) \<inter> set reserved_keys = {}"
  shows "insert_metadata doc |` (- set reserved_keys) = metadata doc"
proof
  fix k
  show "(insert_metadata doc |` (- set reserved_keys)) k = metadata doc k"
  proof (cases "k \<in> set reserved_keys")
    case True
    with assms have "metadata doc k = None" by blast
    with True show ?thesis by (simp add: restrict_map_def)
  next
    case False
    then show ?thesis
      by (auto simp: restrict_map_def insert_metadata_def reserved_keys_def map_add_def
          split: option.split)
  qed
qed

text \<open>
  Claim C8, amended. For every document whose structural fields have their declared
  types and whose residual metadata has none of the four reserved keys, inserting it
  and reading the stored hit back recovers the id, the content, the four structural
  fields and the residual metadata; only the vector is replaced (by \<open>v\<close>, see C9).
\<close>

theorem metadata_round_trip:
  assumes "typed_document doc" and "dom (metadata doc) \<inter> set reserved_keys = {}"
  shows "document (hit_result v (stored_hit doc d)) = doc\<lparr>vector := v\<rparr>"
  using assms insert_metadata_reserved [OF assms(2) refl]
  by (simp add: hit_result_def stored_hit_def Let_def typed_document_def
      or_default_string or_default_number insert_metadata_residual)

theorem metadata_round_trip_witness:
  "typed_document readme_doc \<and> dom (metadata readme_doc) \<inter> set reserved_keys = {}
   \<and> document (hit_result [1, 0] (stored_hit readme_doc (Some (1 / 10))))
       = readme_doc\<lparr>vector := [1, 0]\<rparr>"
proof -
  have t: "typed_document readme_doc"
    by (simp add: typed_document_def readme_doc_def)
  have r: "dom (metadata readme_doc) \<inter> set reserved_keys = {}"
    by (simp add: readme_doc_def reserved_keys_def)
  from t r metadata_round_trip [OF t r] show ?thesis by blast
qed

text \<open>
  Claim C8 as stated, for every document, fails: a residual key named \<^verbatim>\<open>relativePath\<close>
  overrides the structural field on insertion and is dropped from the residual
  metadata on reading.
\<close>

theorem metadata_round_trip_counterexample:
  "typed_document clash_doc
   \<and> relativePath clash_doc = JStr ''src/example.ts''
   \<and> metadata clash_doc ''relativePath'' = Some (JStr ''lib/other.ts'')
   \<and> relativePath (document (hit_result (vector clash_doc) (stored_hit clash_doc None)))
       = JStr ''lib/other.ts''
   \<and> metadata (document (hit_result (vector clash_doc) (stored_hit clash_doc None)))
       ''relativePath'' = None
   \<and> document (hit_result (vector clash_doc) (stored_hit clash_doc None)) \<noteq> clash_doc"
proof -
  have rp: "relativePath (document (hit_result (vector clash_doc) (stored_hit clash_doc None)))
       = JStr ''lib/other.ts''"
    by (simp add: hit_result_def stored_hit_def insert_metadata_def clash_doc_def
        readme_doc_def or_default_def Let_def)
  have orig: "relativePath clash_doc = JStr ''src/example.ts''"
    by (simp add: clash_doc_def readme_doc_def)
  from rp orig have "document (hit_result (vector clash_doc) (stored_hit clash_doc None)) \<noteq> clash_doc"
    by auto
  with rp orig show ?thesis
    by (simp add: typed_document_def)
       (simp add: hit_result_def stored_hit_def insert_metadata_def clash_doc_def
        readme_doc_def reserved_keys_def Let_def)
qed

section \<open>Failure of one modality\<close>

lemma process_requests_append:
  "process_requests be c opts (pre @ rest) acc s =
     (case process_requests be c opts pre acc s of
        (Inl e, s1) \<Rightarrow> (Inl e, s1)
      | (Inr acc1, s1) \<Rightarrow> process_requests be c opts rest acc1 s1)"
  by (induction pre arbitrary: acc s) (auto split: prod.splits sum.splits)

text \<open>
  Claim C5, amended. When the requests before \<open>r\<close> have been processed and the call
  for \<open>r\<close> fails with \<open>e\<close>, the whole fusion call fails with \<open>e\<close>, whatever the options
  and whatever the earlier modalities returned: the error is rethrown, no partial
  result is returned, and no option selects a degraded mode.
\<close>

theorem modality_failure_propagates:
  assumes "init_error be = None"
    and "process_requests be c opts pre [] s = (Inr acc, s1)"
    and "request_results be c opts r s1 = (Inl e, s2)"
  shows "hybridSearch be c (pre @ r # post) opts s = (Inl e, s2)"
  using assms by (simp add: hybridSearch_def process_requests_append)

lemma text_down_dense:
  "request_results text_down_backend ''code'' opts dense_request () =
     (Inr (map (hit_result [1, 0]) [scenario_hit ''x'' (1 / 10), scenario_hit ''y'' (3 / 10)]), ())"
  by (simp add: dense_request_def text_down_backend_def request_results_def
      dense_shape_def search_def search_params_def)

lemma text_down_text:
  "request_results text_down_backend ''code'' opts text_request () =
     (Inl (BackendError ''unavailable''), ())"
  by (simp add: text_request_def text_down_backend_def request_results_def
      dense_shape_def lexical_shape_def text_search_def text_params_def)

lemma text_down_init: "init_error text_down_backend = None"
  by (simp add: text_down_backend_def)

lemma text_down_loop:
  "process_requests text_down_backend ''code'' opts [dense_request] [] () =
     (Inr (foldl merge_result []
        (map (hit_result [1, 0]) [scenario_hit ''x'' (1 / 10), scenario_hit ''y'' (3 / 10)])), ())"
  by (simp add: text_down_dense)

theorem modality_failure_propagates_witness:
  "init_error text_down_backend = None
   \<and> process_requests text_down_backend ''code'' scenario_options [dense_request] [] () =
     (Inr (foldl merge_result []
        (map (hit_result [1, 0]) [scenario_hit ''x'' (1 / 10), scenario_hit ''y'' (3 / 10)])), ())
   \<and> request_results text_down_backend ''code'' scenario_options text_request () =
     (Inl (BackendError ''unavailable''), ())
   \<and> hybridSearch text_down_backend ''code'' ([dense_request] @ text_request # [])
        scenario_options () = (Inl (BackendError ''unavailable''), ())"
  using modality_failure_propagates [OF text_down_init text_down_loop text_down_text]
    text_down_init text_down_loop text_down_text
  by blast

lemma text_down_fails:
  "hybridSearch text_down_backend ''code'' scenario_requests opts () =
     (Inl (BackendError ''unavailable''), ())"
  by (simp add: hybridSearch_def text_down_init scenario_requests_def text_down_dense
      text_down_text)

lemma text_down_dense_only:
  "ids_scores (hybridSearch text_down_backend ''code'' [dense_request] scenario_options ())
     = Some [(''x'', 9 / 10), (''y'', 7 / 10)]"
proof -
  have "map (\<lambda>r. (result_id r, score r))
          (slice0 (sort_by by_score_desc (map snd (foldl merge_result []
             (map (hit_result [1, 0]) [scenario_hit ''x'' (1 / 10), scenario_hit ''y'' (3 / 10)]))))
             (effective_limit scenario_options))
        = [(''x'', 9 / 10), (''y'', 7 / 10)]"
    by (simp add: merge_result_def hit_result_def scenario_hit_def sort_by_def by_score_desc_def
        slice0_def effective_limit_def scenario_options_def result_id_def similarity_def
        distance_or_zero_def)
  then show ?thesis
    by (simp add: hybridSearch_def text_down_init text_down_dense ids_scores_def)
qed

text \<open>
  Claim C5 as stated fails: there is no policy to configure. On a backend whose dense
  query succeeds and whose text query fails, the dense request alone fuses to
  [x: 0.9, y: 0.7], yet no options make the call with both requests return a result.
\<close>

theorem no_degraded_mode:
  "ids_scores (hybridSearch text_down_backend ''code'' [dense_request] scenario_options ())
     = Some [(''x'', 9 / 10), (''y'', 7 / 10)]
   \<and> \<not> (\<exists>opts out s1. hybridSearch text_down_backend ''code'' scenario_requests opts ()
            = (Inr out, s1))"
  by (simp add: text_down_dense_only text_down_fails)


section \<open>Filtering across modalities\<close>

text \<open>
  Claim C1, evaluated at a call with a dense and a text request and the filter
  expression \<^verbatim>\<open>fileExtension in [".ts"]\<close>: the backend receives the dense query with
  no \<^verbatim>\<open>where\<close> clause and the text query with the hardcoded clause. \<^verbatim>\<open>hybridSearch\<close>
  hands \<^verbatim>\<open>filterExpr\<close> to \<^verbatim>\<open>search\<close>, which reads \<^verbatim>\<open>options.filter\<close> only.
\<close>

theorem filter_not_uniform:
  "hybridSearch recording_backend ''code'' scenario_requests filtered_options [] =
     (Inr [],
      [\<lparr>q_input = QueryEmbeddings [1, 0], nResults = 10, q_include = include_fields,
        q_where = None\<rparr>,
       \<lparr>q_input = QueryTexts (Text ''merge''), nResults = 10, q_include = include_fields,
        q_where = Some (FieldIn ''fileExtension'' [''.ts'', ''.js'', ''.py''])\<rparr>])"
  by (simp add: hybridSearch_def recording_backend_def scenario_requests_def dense_request_def
      text_request_def filtered_options_def in_expression_def request_results_def dense_shape_def
      lexical_shape_def search_def text_search_def search_params_def text_params_def
      hybrid_text_where_def default_where_def sort_by_def slice0_def)

section \<open>Translating a filter expression\<close>

lemma dropWhile_keeps: "x \<in> set xs \<Longrightarrow> \<not> P x \<Longrightarrow> x \<in> set (dropWhile P xs)"
  by (induction xs) auto

lemma trim_nonempty:
  assumes "x \<in> set s" and "\<not> is_ws x"
  shows "trim s \<noteq> []"
proof -
  from assms have "x \<in> set (dropWhile is_ws s)" by (rule dropWhile_keeps)
  then have "x \<in> set (rev (dropWhile is_ws s))" by simp
  then have "x \<in> set (dropWhile is_ws (rev (dropWhile is_ws s)))"
    using assms(2) by (rule dropWhile_keeps)
  then have "dropWhile is_ws (rev (dropWhile is_ws s)) \<noteq> []"
    by (metis empty_iff empty_set)
  then show ?thesis by (simp add: trim_def)
qed

lemma trim_quoted: "trim (quoted v) = quoted v"
  by (simp add: trim_def quoted_def is_ws_def)

lemma trim_space_quoted: "trim (CHR '' '' # quoted v) = quoted v"
  by (simp add: trim_def quoted_def is_ws_def)

lemma strip_quotes_quoted: "plain_value v \<Longrightarrow> strip_quotes (quoted v) = v"
  by (auto simp: strip_quotes_def quoted_def plain_value_def list_all_iff intro!: filter_True)

lemma split_on_no_sep: "sep \<notin> set x \<Longrightarrow> split_on sep x = [x]"
  by (induction x) auto

lemma split_on_append:
  "sep \<notin> set x \<Longrightarrow> split_on sep (x @ sep # rest) = x # split_on sep rest"
  by (induction x) auto

lemma comma_not_in_quoted: "plain_value v \<Longrightarrow> CHR '','' \<notin> set (quoted v)"
  by (auto simp: quoted_def plain_value_def list_all_iff)

lemma split_join_comma:
  "list_all plain_value (v # vs) \<Longrightarrow>
     split_on CHR '','' (join_comma (quoted v # map quoted vs))
       = quoted v # map (\<lambda>w. CHR '' '' # quoted w) vs"
proof (induction vs arbitrary: v)
  case Nil
  then show ?case by (simp add: split_on_no_sep comma_not_in_quoted)
next
  case (Cons w vs)
  from Cons.prems have v: "CHR '','' \<notin> set (quoted v)" and rest: "list_all plain_value (w # vs)"
    by (simp_all add: comma_not_in_quoted)
  let ?tail = "join_comma (quoted w # map quoted vs)"
  have "split_on CHR '','' (quoted v @ CHR '','' # (CHR '' '' # ?tail))
          = quoted v # split_on CHR '','' (CHR '' '' # ?tail)"
    using v by (rule split_on_append)
  moreover have "split_on CHR '','' (CHR '' '' # ?tail)
          = (CHR '' '' # quoted w) # map (\<lambda>w. CHR '' '' # quoted w) vs"
    using Cons.IH [OF rest] by simp
  ultimately show ?case by simp
qed

lemma translate_pieces:
  "list_all plain_value (v # vs) \<Longrightarrow>
     map (\<lambda>ext. strip_quotes (trim ext)) (split_on CHR '','' (join_comma (map quoted (v # vs))))
       = v # vs"
  by (simp add: split_join_comma trim_quoted trim_space_quoted strip_quotes_quoted
      list_all_iff map_idI)

lemma set_join_comma:
  "set (join_comma xs) \<subseteq> {CHR '','', CHR '' ''} \<union> \<Union> (set ` set xs)"
  by (induction xs rule: join_comma.induct) auto

lemma bracket_not_in_body:
  assumes "list_all plain_value vs"
  shows "CHR '']'' \<notin> set (join_comma (map quoted vs))"
proof
  assume "CHR '']'' \<in> set (join_comma (map quoted vs))"
  with set_join_comma [of "map quoted vs"] obtain v where "v \<in> set vs" and "CHR '']'' \<in> set (quoted v)"
    by auto
  with assms show False
    by (auto simp: quoted_def plain_value_def list_all_iff)
qed

lemma join_comma_nonempty: "join_comma (map quoted (v # vs)) \<noteq> []"
  by (cases vs) (simp_all add: quoted_def)

lemma takeWhile_until:
  "c \<notin> set body \<Longrightarrow> takeWhile (\<lambda>d. d \<noteq> c) (body @ c # rest) = body"
  by (induction body) auto

lemma dropWhile_until:
  "c \<notin> set body \<Longrightarrow> dropWhile (\<lambda>d. d \<noteq> c) (body @ c # rest) = c # rest"
  by (induction body) auto

lemma match_bracket_body:
  assumes "body \<noteq> []" and "CHR '']'' \<notin> set body"
  shows "match_bracket (''fileExtension in ['' @ body @ '']'') = Some body"
  using assms by (simp add: takeWhile_until dropWhile_until)

lemma query_where_in_expression:
  assumes "list_all plain_value (v # vs)"
  shows "query_where (in_expression ''fileExtension'' (v # vs))
       = Some (FieldIn ''fileExtension'' (v # vs))"
proof -
  let ?body = "join_comma (map quoted (v # vs))"
  have e: "in_expression ''fileExtension'' (v # vs) = ''fileExtension in ['' @ ?body @ '']''"
    by (simp add: in_expression_def)
  have ne: "trim (''fileExtension in ['' @ ?body @ '']'') \<noteq> []"
    by (rule trim_nonempty [of "CHR ''f''"]) (simp_all add: is_ws_def)
  have inc: "includes_str (''fileExtension in ['' @ ?body @ '']'') ''fileExtension in''"
    by (simp add: starts_with_def)
  have m: "match_bracket (''fileExtension in ['' @ ?body @ '']'') = Some ?body"
    using join_comma_nonempty bracket_not_in_body [OF assms] by (rule match_bracket_body)
  show ?thesis
    unfolding e query_where_def using ne inc m translate_pieces [OF assms]
    by simp
qed


text \<open>
  Claim C2, amended. Filter translation is total. In \<^verbatim>\<open>query\<close>, the expression
  \<^verbatim>\<open>fileExtension in ["v1", "v2", ...]\<close> with one or more plain values gives the clause
  \<^verbatim>\<open>{fileExtension: {"$in": [v1, v2, ...]}}\<close>, and a string that does not contain
  \<^verbatim>\<open>fileExtension in\<close> (another field name, or no such expression at all) gives no
  clause. In \<^verbatim>\<open>hybridSearch\<close> every non-empty expression, whatever it says, gives the
  fixed clause \<^verbatim>\<open>{fileExtension: {"$in": [".ts", ".js", ".py"]}}\<close>.
\<close>

theorem filter_translation:
  "(list_all plain_value (v # vs) \<longrightarrow>
      query_where (in_expression ''fileExtension'' (v # vs))
        = Some (FieldIn ''fileExtension'' (v # vs)))
   \<and> (\<not> includes_str f ''fileExtension in'' \<longrightarrow> query_where f = None)
   \<and> (e \<noteq> [] \<longrightarrow>
        hybrid_text_where \<lparr>h_limit = l, h_filterExpr = Some e\<rparr>
          = Some (FieldIn ''fileExtension'' [''.ts'', ''.js'', ''.py'']))"
proof (intro conjI impI)
  assume "list_all plain_value (v # vs)"
  then show "query_where (in_expression ''fileExtension'' (v # vs))
        = Some (FieldIn ''fileExtension'' (v # vs))"
    by (rule query_where_in_expression)
next
  assume "\<not> includes_str f ''fileExtension in''"
  then show "query_where f = None"
    by (simp add: query_where_def)
next
  assume "e \<noteq> []"
  then show "hybrid_text_where \<lparr>h_limit = l, h_filterExpr = Some e\<rparr>
          = Some (FieldIn ''fileExtension'' [''.ts'', ''.js'', ''.py''])"
    by (simp add: hybrid_text_where_def default_where_def)
qed

theorem filter_translation_witness:
  "list_all plain_value [''.ts'', ''.py'']
   \<and> query_where (in_expression ''fileExtension'' [''.ts'', ''.py''])
       = Some (FieldIn ''fileExtension'' [''.ts'', ''.py''])
   \<and> \<not> includes_str ''not-a-valid-expr'' ''fileExtension in''
   \<and> query_where ''not-a-valid-expr'' = None
   \<and> ''not-a-valid-expr'' \<noteq> []
   \<and> hybrid_text_where \<lparr>h_limit = None, h_filterExpr = Some ''not-a-valid-expr''\<rparr>
       = Some (FieldIn ''fileExtension'' [''.ts'', ''.js'', ''.py''])"
proof -
  have p: "list_all plain_value [''.ts'', ''.py'']"
    by (simp add: plain_value_def)
  have n: "\<not> includes_str ''not-a-valid-expr'' ''fileExtension in''"
    by (simp add: starts_with_def)
  have e: "''not-a-valid-expr'' \<noteq> []"
    by simp
  from p n e filter_translation [of "''.ts''" "[''.py'']" "''not-a-valid-expr''"
      "''not-a-valid-expr''" None]
  show ?thesis by blast
qed

text \<open>
  Claim C2 as stated fails on each of its three parts: \<^verbatim>\<open>query\<close> translates no field
  but \<^verbatim>\<open>fileExtension\<close>, so \<^verbatim>\<open>language in ["ts"]\<close> gives no clause; it gives no clause,
  not the default one, for a string outside the grammar; and \<^verbatim>\<open>hybridSearch\<close> gives the
  default clause even for \<^verbatim>\<open>fileExtension in [".rs"]\<close>.
\<close>

theorem filter_translation_counterexample:
  "in_expression ''language'' [''ts''] = ''language in ['' @ [CHR 0x22] @ ''ts'' @ [CHR 0x22] @ '']''
   \<and> query_where (in_expression ''language'' [''ts'']) = None
   \<and> query_where (in_expression ''language'' [''ts'']) \<noteq> Some (FieldIn ''language'' [''ts''])
   \<and> query_where ''not-a-valid-expr'' = None
   \<and> query_where ''not-a-valid-expr'' \<noteq> Some default_where
   \<and> hybrid_text_where
        \<lparr>h_limit = None, h_filterExpr = Some (in_expression ''fileExtension'' [''.rs''])\<rparr>
       = Some (FieldIn ''fileExtension'' [''.ts'', ''.js'', ''.py''])
   \<and> hybrid_text_where
        \<lparr>h_limit = None, h_filterExpr = Some (in_expression ''fileExtension'' [''.rs''])\<rparr>
       \<noteq> Some (FieldIn ''fileExtension'' [''.rs''])"
  by (simp add: query_where_def in_expression_def quoted_def starts_with_def
      hybrid_text_where_def default_where_def)

end
